theory Spec2Isabelle
  imports Complex_Main
begin

section \<open>JavaScript values that come out of \<^verbatim>\<open>JSON.parse\<close>\<close>

text \<open>
  The gateway (\<^verbatim>\<open>api-gateway/index.js\<close>) works on plain JavaScript objects: the
  intent is whatever \<^verbatim>\<open>JSON.parse\<close> made of the classifier's reply. A value of
  type \<open>json\<close> is such a parsed value; a property that is absent reads as
  \<^verbatim>\<open>undefined\<close>, which is \<open>None\<close> of \<open>json option\<close>, and \<^verbatim>\<open>null\<close> is
  \<open>Some JNull\<close>.
\<close>

datatype json =
    JNull
  | JBool bool
  | JNum rat
  | JStr string
  | JArr "json list"
  | JObj "(string \<times> json) list"

text \<open>
  \<^verbatim>\<open>v.k\<close> for a value \<open>v\<close> that is neither \<^verbatim>\<open>null\<close> nor \<^verbatim>\<open>undefined\<close>
  (reading a property of those throws a TypeError, which every caller below writes out as
  its own branch). Of a repeated key \<^verbatim>\<open>JSON.parse\<close> keeps the last value. The keys
  read by the gateway are no properties of the prototypes of numbers, strings, booleans or
  arrays, so they read as \<^verbatim>\<open>undefined\<close> there.
\<close>

fun js_get :: "json \<Rightarrow> string \<Rightarrow> json option" where
  "js_get (JObj kvs) k = map_of (rev kvs) k"
| "js_get _ k = None"

text \<open>Truthiness, as \<^verbatim>\<open>if (v)\<close>, \<^verbatim>\<open>!v\<close> and \<^verbatim>\<open>v || w\<close> test it.\<close>

fun truthy :: "json option \<Rightarrow> bool" where
  "truthy None = False"
| "truthy (Some JNull) = False"
| "truthy (Some (JBool b)) = b"
| "truthy (Some (JNum n)) = (n \<noteq> 0)"
| "truthy (Some (JStr s)) = (s \<noteq> [])"
| "truthy (Some (JArr xs)) = True"
| "truthy (Some (JObj kvs)) = True"

text \<open>\<^verbatim>\<open>v || d\<close> for a default \<open>d\<close> that is a value.\<close>

definition or_else :: "json option \<Rightarrow> json \<Rightarrow> json" where
  "or_else v d = (case v of None \<Rightarrow> d | Some j \<Rightarrow> if truthy (Some j) then j else d)"

text \<open>\<^verbatim>\<open>v || {}\<close>\<close>

definition or_empty :: "json option \<Rightarrow> json" where
  "or_empty v = or_else v (JObj [])"

text \<open>A call that returns a value or throws; the string is \<^verbatim>\<open>error.message\<close>.\<close>

datatype 'a outcome = Returns 'a | Throws string

section \<open>Messages and the transcript store (\<^verbatim>\<open>CosmosDbService\<close>)\<close>

text \<open>
  The \<^verbatim>\<open>id\<close> of a message: \<open>ServerId t\<close> is \<^verbatim>\<open>Date.now().toString()\<close> at the
  instant \<open>t\<close> (in milliseconds), \<open>ClientId\<close> an id that a client chose.
\<close>

datatype message_id = ServerId nat | ClientId string

text \<open>
  A chat message. \<open>timestamp\<close> is the instant in milliseconds whose ISO string is the
  \<^verbatim>\<open>timestamp\<close>: the ISO strings of \<^verbatim>\<open>toISOString\<close> order as their instants do.
  The gateway reads the clock for \<^verbatim>\<open>id\<close> and again for \<^verbatim>\<open>timestamp\<close>; the model
  reads it once.
\<close>

record message =
  msg_id :: message_id
  content :: "json option"
  timestamp :: nat
  sender :: string
  userId :: string

text \<open>
  \<^verbatim>\<open>this.container\<close> is \<^verbatim>\<open>null\<close> (\<open>None\<close>) until \<^verbatim>\<open>initialize\<close> has
  succeeded; otherwise it holds the stored items, in the order of their creation.
\<close>

type_synonym container = "message list option"

text \<open>
  \<^verbatim>\<open>saveMessage(message)\<close>: never throws. \<open>created\<close> says whether
  \<^verbatim>\<open>container.items.create\<close> succeeded. The gateway ignores the result, so the model
  returns the container only.
\<close>

definition saveMessage :: "container \<Rightarrow> bool \<Rightarrow> message \<Rightarrow> container" where
  "saveMessage c created m =
     (case c of
        None \<Rightarrow> None
      | Some items \<Rightarrow> if created then Some (items @ [m]) else Some items)"

text \<open>
  The query of \<^verbatim>\<open>getConversationHistory\<close>:
  \<^verbatim>\<open>SELECT * FROM c WHERE c.userId = @userId ORDER BY c.timestamp DESC OFFSET 0 LIMIT @limit\<close>.
  Among items of equal timestamp the database fixes no order; the model takes the later
  created first.
\<close>

definition query_recent :: "message list \<Rightarrow> string \<Rightarrow> nat \<Rightarrow> message list" where
  "query_recent items uid limit =
     take limit (rev (sort_key timestamp (filter (\<lambda>m. userId m = uid) items)))"

text \<open>
  \<^verbatim>\<open>getConversationHistory(userId, limit = 20)\<close>: \<open>[]\<close> without a container or when
  the query throws (\<open>fetched = False\<close>), else \<^verbatim>\<open>items.reverse()\<close>.
\<close>

definition getConversationHistory :: "container \<Rightarrow> bool \<Rightarrow> string \<Rightarrow> nat \<Rightarrow> message list" where
  "getConversationHistory c fetched uid limit =
     (case c of
        None \<Rightarrow> []
      | Some items \<Rightarrow> if fetched then rev (query_recent items uid limit) else [])"

definition default_limit :: nat where
  "default_limit = 20"

section \<open>The classifier and the response composer (\<^verbatim>\<open>AiService\<close>)\<close>

text \<open>
  What the chat completion request of \<^verbatim>\<open>detectIntent\<close> comes to: the request fails
  (or the completion has no first choice to read), or its content is text that
  \<^verbatim>\<open>JSON.parse\<close> rejects, or text that parses to a value.
\<close>

datatype model_reply = RequestFailed string | Unparseable | Parsed json

text \<open>The second argument of \<^verbatim>\<open>detectIntent\<close>.\<close>

record conversationState =
  cs_activeFlow :: "json option"
  cs_currentStep :: "json option"
  cs_collectedParams :: "json option"

text \<open>\<^verbatim>\<open>processFlowStep(response, conversationState)\<close>\<close>

definition processFlowStep :: "json \<Rightarrow> conversationState \<Rightarrow> json" where
  "processFlowStep response cs = response"

text \<open>
  The body of the outer \<^verbatim>\<open>try\<close> of \<^verbatim>\<open>detectIntent\<close>. \<open>client\<close> says whether
  \<^verbatim>\<open>this.openai\<close> is set. The inner \<^verbatim>\<open>try\<close> surrounds \<^verbatim>\<open>JSON.parse\<close> and
  the test \<^verbatim>\<open>conversationState.activeFlow && parsedResponse.action === 'CONTINUE_FLOW'\<close>,
  whose right operand is evaluated only in an active flow and throws on \<^verbatim>\<open>null\<close>;
  the inner \<^verbatim>\<open>catch\<close> throws a new error.
\<close>

definition detectIntent_try :: "bool \<Rightarrow> model_reply \<Rightarrow> conversationState \<Rightarrow> json outcome" where
  "detectIntent_try client reply cs =
     (if \<not> client then Throws ''OpenAI client is not available. Please check your API key.''
      else case reply of
        RequestFailed e \<Rightarrow> Throws e
      | Unparseable \<Rightarrow> Throws ''Failed to parse AI response''
      | Parsed parsedResponse \<Rightarrow>
          if truthy (cs_activeFlow cs) then
            (if parsedResponse = JNull then Throws ''Failed to parse AI response''
             else if js_get parsedResponse ''action'' = Some (JStr ''CONTINUE_FLOW'')
               then Returns (processFlowStep parsedResponse cs)
               else Returns parsedResponse)
          else Returns parsedResponse)"

text \<open>The intent that the outer \<^verbatim>\<open>catch\<close> of \<^verbatim>\<open>detectIntent\<close> returns.\<close>

definition classifier_apology :: string where
  "classifier_apology =
     ''I'm sorry, I'm having trouble understanding right now. Could you try again or rephrase your request?''"

definition fallback_intent :: json where
  "fallback_intent = JObj [(''action'', JStr ''CHAT''), (''response'', JStr classifier_apology)]"

definition detectIntent :: "bool \<Rightarrow> model_reply \<Rightarrow> conversationState \<Rightarrow> json" where
  "detectIntent client reply cs =
     (case detectIntent_try client reply cs of
        Returns intent \<Rightarrow> intent
      | Throws e \<Rightarrow> fallback_intent)"

text \<open>
  \<^verbatim>\<open>generateResponse(conversation)\<close>: its whole body is a \<^verbatim>\<open>try\<close> whose
  \<^verbatim>\<open>catch\<close> returns an apology, so it returns a value whatever happens. \<open>completion\<close>
  is the outcome of the chat completion request, \<^verbatim>\<open>choices[0].message.content\<close> when
  it succeeds. Without a client the request is a TypeError inside the \<^verbatim>\<open>try\<close>.
\<close>

definition generateResponse :: "bool \<Rightarrow> json outcome \<Rightarrow> json" where
  "generateResponse client completion =
     (if \<not> client then JStr ''I'm sorry, I encountered an issue. Can you please try again?''
      else case completion of
        Returns text \<Rightarrow> text
      | Throws e \<Rightarrow> JStr ''I'm sorry, I encountered an issue. Can you please try again?'')"

section \<open>The action adapters (\<^verbatim>\<open>ApiAdapters\<close>)\<close>

text \<open>
  What the one HTTP request of an adapter comes to: a response with a success status, an
  error that carries a response (\<^verbatim>\<open>error.response\<close>: the backend rejected the
  request), or an error without one (network failure, timeout).
\<close>

datatype http_outcome =
    HttpOk nat json
  | HttpRejected nat json string
  | HttpFailed string

text \<open>
  What an adapter hands back to the gateway, which passes it to the response composer
  only: \<open>Payload\<close> is \<^verbatim>\<open>response.data\<close> (with \<^verbatim>\<open>status: 'success'\<close> and the
  status code added by \<^verbatim>\<open>bookTicket\<close> and \<^verbatim>\<open>checkIn\<close>), \<open>ErrorEnvelope\<close> is
  \<^verbatim>\<open>{error: true, statusCode, errorData, message}\<close> and \<open>FailedEnvelope\<close> is
  \<^verbatim>\<open>{error: true, message, status: 'failed'}\<close>.
\<close>

datatype adapter_result =
    Payload nat json
  | ErrorEnvelope nat json
  | FailedEnvelope string

text \<open>
  \<^verbatim>\<open>searchFlights(params)\<close>: reading \<^verbatim>\<open>params.dateFrom\<close> of \<^verbatim>\<open>undefined\<close>
  or \<^verbatim>\<open>null\<close> throws inside the \<^verbatim>\<open>try\<close>; the \<^verbatim>\<open>catch\<close> rethrows every
  error as \<^verbatim>\<open>Failed to search flights: ...\<close>.
\<close>

definition searchFlights :: "json option \<Rightarrow> http_outcome \<Rightarrow> adapter_result outcome" where
  "searchFlights params http =
     (if params = None \<or> params = Some JNull
        then Throws ''Failed to search flights: Cannot read properties of undefined''
      else case http of
        HttpOk status data \<Rightarrow> Returns (Payload status data)
      | HttpRejected status data e \<Rightarrow> Throws (''Failed to search flights: '' @ e)
      | HttpFailed e \<Rightarrow> Throws (''Failed to search flights: '' @ e))"

text \<open>
  \<^verbatim>\<open>bookTicket(ticketData)\<close>: \<^verbatim>\<open>ensureAuthenticated\<close> catches its own errors and
  its result is not looked at. Every error of the \<^verbatim>\<open>try\<close> is turned into a returned
  envelope, also the TypeError of reading \<^verbatim>\<open>ticketData.flightNumber\<close> of
  \<^verbatim>\<open>undefined\<close> or \<^verbatim>\<open>null\<close>.
\<close>

definition bookTicket :: "json option \<Rightarrow> http_outcome \<Rightarrow> adapter_result outcome" where
  "bookTicket ticketData http =
     (if ticketData = None \<or> ticketData = Some JNull
        then Returns (FailedEnvelope ''Cannot read properties of undefined'')
      else case http of
        HttpOk status data \<Rightarrow> Returns (Payload status data)
      | HttpRejected status data e \<Rightarrow> Returns (ErrorEnvelope status data)
      | HttpFailed e \<Rightarrow> Returns (FailedEnvelope e))"

text \<open>
  \<^verbatim>\<open>checkIn(checkInData)\<close>: as \<^verbatim>\<open>bookTicket\<close>, but it reads
  \<^verbatim>\<open>checkInData?.flightNumber\<close>, which does not throw.
\<close>

definition checkIn :: "json option \<Rightarrow> http_outcome \<Rightarrow> adapter_result outcome" where
  "checkIn checkInData http =
     (case http of
        HttpOk status data \<Rightarrow> Returns (Payload status data)
      | HttpRejected status data e \<Rightarrow> Returns (ErrorEnvelope status data)
      | HttpFailed e \<Rightarrow> Returns (FailedEnvelope e))"

section \<open>Sessions and the message handler (\<^verbatim>\<open>api-gateway/index.js\<close>)\<close>

text \<open>
  An entry of \<^verbatim>\<open>userSessions\<close>. \<^verbatim>\<open>socket.userId\<close> is set together with the
  entry and to the same value, so \<open>session_userId\<close> stands for both.
  \<open>collectedParams\<close> is only ever assigned \<^verbatim>\<open>{}\<close> or an \<^verbatim>\<open>x || {}\<close>, so it
  is never \<^verbatim>\<open>undefined\<close>.
\<close>

record session =
  session_userId :: string
  activeFlow :: "json option"
  currentStep :: "json option"
  collectedParams :: json
  conversationHistory :: "message list"

text \<open>The entry that \<^verbatim>\<open>socket.on('identify')\<close> creates.\<close>

definition new_session :: "string \<Rightarrow> session" where
  "new_session uid =
     \<lparr>session_userId = uid, activeFlow = Some JNull, currentStep = Some JNull,
      collectedParams = JObj [], conversationHistory = []\<rparr>"

text \<open>
  What the outside world does during one run of the message handler: whether the two
  \<^verbatim>\<open>saveMessage\<close> calls get their item created, whether the AI service has a client,
  the classifier's reply, the outcome of the backend's HTTP request (if an adapter is
  called), the outcome of the completion request of \<^verbatim>\<open>generateResponse\<close> (if it is
  called), and the clock.
\<close>

record turn_env =
  user_saved :: bool
  client :: bool
  classifier :: model_reply
  backend :: http_outcome
  composer :: "json outcome"
  now :: nat
  reply_saved :: bool

datatype adapter = SearchFlights | BookTicket | CheckIn

text \<open>A call of an adapter by the gateway: which one, and its argument.\<close>

type_synonym adapter_call = "adapter \<times> json option"

text \<open>
  What the \<^verbatim>\<open>switch (intent.action)\<close> of the message handler leaves behind: the
  session, \<^verbatim>\<open>responseContent\<close>, and the adapter calls it made, in order.
\<close>

record step =
  st_session :: session
  st_response :: "json option"
  st_calls :: "adapter_call list"

text \<open>
  \<^verbatim>\<open>case 'QUERY_FLIGHT'\<close> (single shot). Both the \<^verbatim>\<open>try\<close> and its
  \<^verbatim>\<open>catch\<close> end in \<^verbatim>\<open>generateResponse\<close>, which returns a value
  (see \<open>generateResponse\<close>), so the innermost \<^verbatim>\<open>catch\<close> has nothing to catch.
\<close>

definition single_query :: "turn_env \<Rightarrow> session \<Rightarrow> json \<Rightarrow> step" where
  "single_query env s intent =
     (case searchFlights (js_get intent ''parameters'') (backend env) of
        Returns flights \<Rightarrow>
          \<lparr>st_session = s,
           st_response = Some (generateResponse (client env) (composer env)),
           st_calls = [(SearchFlights, js_get intent ''parameters'')]\<rparr>
      | Throws e \<Rightarrow>
          \<lparr>st_session = s,
           st_response = Some (generateResponse (client env) (composer env)),
           st_calls = [(SearchFlights, js_get intent ''parameters'')]\<rparr>)"

text \<open>\<^verbatim>\<open>case 'BUY_TICKET'\<close> (single shot)\<close>

definition single_buy :: "turn_env \<Rightarrow> session \<Rightarrow> json \<Rightarrow> step" where
  "single_buy env s intent =
     (case bookTicket (js_get intent ''parameters'') (backend env) of
        Returns ticketResult \<Rightarrow>
          \<lparr>st_session = s,
           st_response = Some (generateResponse (client env) (composer env)),
           st_calls = [(BookTicket, js_get intent ''parameters'')]\<rparr>
      | Throws e \<Rightarrow>
          \<lparr>st_session = s,
           st_response = Some (JStr
             ''I'm sorry, I encountered an error while booking your ticket. Please try again.''),
           st_calls = [(BookTicket, js_get intent ''parameters'')]\<rparr>)"

text \<open>\<^verbatim>\<open>case 'CHECK_IN'\<close> (single shot)\<close>

definition single_checkin :: "turn_env \<Rightarrow> session \<Rightarrow> json \<Rightarrow> step" where
  "single_checkin env s intent =
     (case checkIn (js_get intent ''parameters'') (backend env) of
        Returns checkInResult \<Rightarrow>
          \<lparr>st_session = s,
           st_response = Some (generateResponse (client env) (composer env)),
           st_calls = [(CheckIn, js_get intent ''parameters'')]\<rparr>
      | Throws e \<Rightarrow>
          \<lparr>st_session = s,
           st_response = Some (JStr
             ''I'm sorry, I encountered an error while processing your check-in. Please try again.''),
           st_calls = [(CheckIn, js_get intent ''parameters'')]\<rparr>)"

text \<open>
  \<^verbatim>\<open>case 'START_QUERY_FLOW'\<close>, \<^verbatim>\<open>'START_BUY_FLOW'\<close>, \<^verbatim>\<open>'START_CHECKIN_FLOW'\<close>:
  the three cases differ in the flow name (and in the prompt given to the composer).
\<close>

definition start_flow :: "turn_env \<Rightarrow> session \<Rightarrow> json \<Rightarrow> string \<Rightarrow> step" where
  "start_flow env s intent flow =
     \<lparr>st_session = s\<lparr>activeFlow := Some (JStr flow),
                       currentStep := Some (JNum 1),
                       collectedParams := or_empty (js_get intent ''parameters'')\<rparr>,
      st_response = Some (generateResponse (client env) (composer env)),
      st_calls = []\<rparr>"

text \<open>
  The \<^verbatim>\<open>// Reset flow\<close> assignments, which stand at the end of each \<^verbatim>\<open>try\<close> of
  a completed flow.
\<close>

definition reset_flow :: "session \<Rightarrow> session" where
  "reset_flow s = s\<lparr>activeFlow := Some JNull, currentStep := Some JNull\<rparr>"

text \<open>
  \<^verbatim>\<open>case 'CONTINUE_FLOW'\<close>. The three assignments come first. When
  \<^verbatim>\<open>intent.isFlowComplete\<close> is truthy, \<^verbatim>\<open>switch (intent.flow)\<close> has the three
  flow names and no default; each case calls its adapter with
  \<^verbatim>\<open>session.collectedParams\<close> inside a \<^verbatim>\<open>try\<close> that ends with the reset, and its
  \<^verbatim>\<open>catch\<close> composes an apology and assigns nothing to the session. Otherwise the
  composer is asked for the next question.
\<close>

definition continue_flow :: "turn_env \<Rightarrow> session \<Rightarrow> json \<Rightarrow> step" where
  "continue_flow env s intent =
     (let s1 = s\<lparr>activeFlow := js_get intent ''flow'',
                  currentStep := js_get intent ''nextStep'',
                  collectedParams := or_empty (js_get intent ''collectedParams'')\<rparr>
      in if truthy (js_get intent ''isFlowComplete'') then
           (if js_get intent ''flow'' = Some (JStr ''QUERY_FLIGHT'') then
              (case searchFlights (Some (collectedParams s1)) (backend env) of
                 Returns flights \<Rightarrow>
                   \<lparr>st_session = reset_flow s1,
                    st_response = Some (generateResponse (client env) (composer env)),
                    st_calls = [(SearchFlights, Some (collectedParams s1))]\<rparr>
               | Throws e \<Rightarrow>
                   \<lparr>st_session = s1,
                    st_response = Some (generateResponse (client env) (composer env)),
                    st_calls = [(SearchFlights, Some (collectedParams s1))]\<rparr>)
            else if js_get intent ''flow'' = Some (JStr ''BUY_TICKET'') then
              (case bookTicket (Some (collectedParams s1)) (backend env) of
                 Returns ticketResult \<Rightarrow>
                   \<lparr>st_session = reset_flow s1,
                    st_response = Some (generateResponse (client env) (composer env)),
                    st_calls = [(BookTicket, Some (collectedParams s1))]\<rparr>
               | Throws e \<Rightarrow>
                   \<lparr>st_session = s1,
                    st_response = Some (generateResponse (client env) (composer env)),
                    st_calls = [(BookTicket, Some (collectedParams s1))]\<rparr>)
            else if js_get intent ''flow'' = Some (JStr ''CHECK_IN'') then
              (case checkIn (Some (collectedParams s1)) (backend env) of
                 Returns checkInResult \<Rightarrow>
                   \<lparr>st_session = reset_flow s1,
                    st_response = Some (generateResponse (client env) (composer env)),
                    st_calls = [(CheckIn, Some (collectedParams s1))]\<rparr>
               | Throws e \<Rightarrow>
                   \<lparr>st_session = s1,
                    st_response = Some (generateResponse (client env) (composer env)),
                    st_calls = [(CheckIn, Some (collectedParams s1))]\<rparr>)
            else \<lparr>st_session = s1, st_response = Some (JStr []), st_calls = []\<rparr>)
         else
           \<lparr>st_session = s1,
            st_response = Some (generateResponse (client env) (composer env)),
            st_calls = []\<rparr>)"

text \<open>\<^verbatim>\<open>case 'CHAT': default:\<close>\<close>

definition chat_default :: "session \<Rightarrow> json \<Rightarrow> step" where
  "chat_default s intent =
     \<lparr>st_session = s,
      st_response = Some (or_else (js_get intent ''response'')
        (JStr ''I'm not sure I understand. Could you please rephrase your request?'')),
      st_calls = []\<rparr>"

text \<open>
  \<^verbatim>\<open>switch (intent.action)\<close>, with \<^verbatim>\<open>===\<close> against the case labels in their
  order. Reading \<^verbatim>\<open>intent.action\<close> of \<^verbatim>\<open>null\<close> throws; that error reaches the
  outer \<^verbatim>\<open>catch\<close> of the handler.
\<close>

definition handle_intent :: "turn_env \<Rightarrow> session \<Rightarrow> json \<Rightarrow> step outcome" where
  "handle_intent env s intent =
     (if intent = JNull then Throws ''Cannot read properties of null (reading 'action')''
      else if js_get intent ''action'' = Some (JStr ''QUERY_FLIGHT'')
        then Returns (single_query env s intent)
      else if js_get intent ''action'' = Some (JStr ''BUY_TICKET'')
        then Returns (single_buy env s intent)
      else if js_get intent ''action'' = Some (JStr ''CHECK_IN'')
        then Returns (single_checkin env s intent)
      else if js_get intent ''action'' = Some (JStr ''START_QUERY_FLOW'')
        then Returns (start_flow env s intent ''QUERY_FLIGHT'')
      else if js_get intent ''action'' = Some (JStr ''START_BUY_FLOW'')
        then Returns (start_flow env s intent ''BUY_TICKET'')
      else if js_get intent ''action'' = Some (JStr ''START_CHECKIN_FLOW'')
        then Returns (start_flow env s intent ''CHECK_IN'')
      else if js_get intent ''action'' = Some (JStr ''CONTINUE_FLOW'')
        then Returns (continue_flow env s intent)
      else Returns (chat_default s intent))"

text \<open>
  What one run of \<^verbatim>\<open>socket.on('message')\<close> for an existing session does: the session
  afterwards, the container afterwards, the messages emitted to the socket and the
  adapter calls. \<open>t_answered\<close> tells the normal end from the outer \<^verbatim>\<open>catch\<close>.
\<close>

record turn =
  t_session :: session
  t_container :: container
  t_emitted :: "message list"
  t_calls :: "adapter_call list"
  t_answered :: bool

text \<open>
  The conversation state that the handler passes to \<^verbatim>\<open>detectIntent\<close>:
  \<^verbatim>\<open>{activeFlow: session.activeFlow, currentStep: session.currentStep, collectedParams: session.collectedParams}\<close>
\<close>

definition session_state :: "session \<Rightarrow> conversationState" where
  "session_state s =
     \<lparr>cs_activeFlow = activeFlow s, cs_currentStep = currentStep s,
      cs_collectedParams = Some (collectedParams s)\<rparr>"

text \<open>
  The handler from \<^verbatim>\<open>saveMessage(message)\<close> on. \<^verbatim>\<open>saveMessage\<close> does not throw,
  so the user's message is always pushed. The outer \<^verbatim>\<open>catch\<close> emits its own message
  and neither pushes nor saves it.
\<close>

definition process_message :: "turn_env \<Rightarrow> container \<Rightarrow> session \<Rightarrow> message \<Rightarrow> turn" where
  "process_message env c s msg =
     (let c1 = saveMessage c (user_saved env) msg;
          s1 = s\<lparr>conversationHistory := conversationHistory s @ [msg]\<rparr>;
          intent = detectIntent (client env) (classifier env) (session_state s1)
      in case handle_intent env s1 intent of
           Returns st \<Rightarrow>
             (let assistantMessage =
                    \<lparr>msg_id = ServerId (now env), content = st_response st, timestamp = now env,
                     sender = ''assistant'', userId = session_userId s\<rparr>;
                  s2 = st_session st
              in \<lparr>t_session = s2\<lparr>conversationHistory :=
                                     conversationHistory s2 @ [assistantMessage]\<rparr>,
                  t_container = saveMessage c1 (reply_saved env) assistantMessage,
                  t_emitted = [assistantMessage],
                  t_calls = st_calls st,
                  t_answered = True\<rparr>)
         | Throws e \<Rightarrow>
             \<lparr>t_session = s1,
              t_container = c1,
              t_emitted =
                [\<lparr>msg_id = ServerId (now env),
                  content = Some (JStr
                    ''I'm sorry, I encountered an error processing your request. Please try again.''),
                  timestamp = now env, sender = ''assistant'', userId = session_userId s\<rparr>],
              t_calls = [],
              t_answered = False\<rparr>)"

section \<open>The socket handlers over the session registry\<close>

text \<open>
  The process state the handlers share: \<^verbatim>\<open>userSessions\<close>, keyed by
  \<^verbatim>\<open>socket.id\<close>, and the container of \<^verbatim>\<open>cosmosDbService\<close>. Each handler is
  modelled as one step: a handler that is suspended in an \<^verbatim>\<open>await\<close> while another
  one runs is not modelled.
\<close>

record gateway =
  userSessions :: "string \<rightharpoonup> session"
  db :: container

text \<open>
  What the outside world does during \<^verbatim>\<open>socket.on('identify')\<close>: whether the history
  query succeeds, the clock, and whether the welcome message gets stored.
\<close>

record identify_env =
  fetched :: bool
  opened_at :: nat
  welcome_saved :: bool

datatype socket_event = EmitHistory "message list" | EmitMessage message

definition welcomeMessage :: "nat \<Rightarrow> string \<Rightarrow> message" where
  "welcomeMessage t uid =
     \<lparr>msg_id = ServerId t,
      content = Some (JStr ''Welcome to Airline Chat! How can I help you today?''),
      timestamp = t, sender = ''assistant'', userId = uid\<rparr>"

text \<open>
  \<^verbatim>\<open>socket.on('identify', async (userId) => ...)\<close>: a fresh entry, the history loaded
  into it (and emitted) when it is not empty, then the welcome message emitted, pushed
  and saved. \<^verbatim>\<open>getConversationHistory\<close> and \<^verbatim>\<open>saveMessage\<close> catch their own
  errors.
\<close>

definition identify :: "identify_env \<Rightarrow> gateway \<Rightarrow> string \<Rightarrow> string \<Rightarrow> gateway \<times> socket_event list" where
  "identify env g sock uid =
     (let history = getConversationHistory (db g) (fetched env) uid default_limit;
          loaded = (if length history > 0 then history else []);
          w = welcomeMessage (opened_at env) uid
      in (\<lparr>userSessions = (userSessions g)
              (sock \<mapsto> (new_session uid)\<lparr>conversationHistory := loaded @ [w]\<rparr>),
           db = saveMessage (db g) (welcome_saved env) w\<rparr>,
          (if length history > 0 then [EmitHistory history] else []) @ [EmitMessage w]))"

text \<open>
  \<^verbatim>\<open>socket.on('message', async (message) => ...)\<close>: without an entry for the socket
  the handler returns at once.
\<close>

definition on_message :: "turn_env \<Rightarrow> gateway \<Rightarrow> string \<Rightarrow> message \<Rightarrow> gateway \<times> socket_event list \<times> adapter_call list" where
  "on_message env g sock msg =
     (case userSessions g sock of
        None \<Rightarrow> (g, [], [])
      | Some s \<Rightarrow>
          (let t = process_message env (db g) s msg
           in (\<lparr>userSessions = (userSessions g)(sock \<mapsto> t_session t), db = t_container t\<rparr>,
               map EmitMessage (t_emitted t),
               t_calls t)))"

text \<open>\<^verbatim>\<open>socket.on('disconnect')\<close>: \<^verbatim>\<open>delete userSessions[socket.id]\<close>\<close>

definition disconnect :: "gateway \<Rightarrow> string \<Rightarrow> gateway" where
  "disconnect g sock = g\<lparr>userSessions := (userSessions g)(sock := None)\<rparr>"

text \<open>The events of a socket, each with what the outside world does during its handler.\<close>

datatype event =
    Identify identify_env string string
  | Message turn_env string message
  | Disconnect string

fun apply_event :: "gateway \<Rightarrow> event \<Rightarrow> gateway" where
  "apply_event g (Identify env sock uid) = fst (identify env g sock uid)"
| "apply_event g (Message env sock msg) = fst (on_message env g sock msg)"
| "apply_event g (Disconnect sock) = disconnect g sock"

text \<open>The gateway after a sequence of events, handled in their order.\<close>

definition run :: "gateway \<Rightarrow> event list \<Rightarrow> gateway" where
  "run g evs = foldl apply_event g evs"

text \<open>The gateway at start: no sessions.\<close>

definition start :: "container \<Rightarrow> gateway" where
  "start c = \<lparr>userSessions = Map.empty, db = c\<rparr>"



section \<open>Properties of a session and of an intent\<close>

text \<open>
  \<^verbatim>\<open>null\<close> or \<^verbatim>\<open>undefined\<close>: no flow, or no step. A session field is
  \<^verbatim>\<open>undefined\<close> after it was assigned a property that the intent does not have.
\<close>

definition nullish :: "json option \<Rightarrow> bool" where
  "nullish v = (v = None \<or> v = Some JNull)"

text \<open>
  The invariant of the data model: the session has no flow (\<open>activeFlow\<close> null or
  undefined) exactly when it has no step (\<open>currentStep\<close> null or undefined).
\<close>

definition flow_inv :: "session \<Rightarrow> bool" where
  "flow_inv s = (nullish (activeFlow s) = nullish (currentStep s))"

text \<open>The eight action names that \<^verbatim>\<open>switch (intent.action)\<close> has a label for.\<close>

definition recognized_actions :: "string list" where
  "recognized_actions =
     [''CHAT'', ''QUERY_FLIGHT'', ''BUY_TICKET'', ''CHECK_IN'', ''START_QUERY_FLOW'',
      ''START_BUY_FLOW'', ''START_CHECKIN_FLOW'', ''CONTINUE_FLOW'']"

definition recognized :: "json \<Rightarrow> bool" where
  "recognized intent =
     (case js_get intent ''action'' of
        Some (JStr a) \<Rightarrow> a \<in> set recognized_actions
      | _ \<Rightarrow> False)"

text \<open>The three flow names that the completion \<^verbatim>\<open>switch (intent.flow)\<close> has a label for.\<close>

definition flow_adapter :: "json option \<Rightarrow> adapter option" where
  "flow_adapter f =
     (if f = Some (JStr ''QUERY_FLIGHT'') then Some SearchFlights
      else if f = Some (JStr ''BUY_TICKET'') then Some BookTicket
      else if f = Some (JStr ''CHECK_IN'') then Some CheckIn
      else None)"

text \<open>Whether the backend's HTTP request ended in a response with a success status.\<close>

definition http_ok :: "http_outcome \<Rightarrow> bool" where
  "http_ok h = (case h of HttpOk status data \<Rightarrow> True | _ \<Rightarrow> False)"

text \<open>
  A \<^verbatim>\<open>CONTINUE_FLOW\<close> intent whose handling reaches the \<^verbatim>\<open>// Reset flow\<close>
  assignments: \<^verbatim>\<open>isFlowComplete\<close> is truthy and the flow is \<^verbatim>\<open>BUY_TICKET\<close> or
  \<^verbatim>\<open>CHECK_IN\<close> (whose adapters return), or \<^verbatim>\<open>QUERY_FLIGHT\<close> with a search
  request that succeeds (otherwise \<^verbatim>\<open>searchFlights\<close> throws).
\<close>

definition reaches_reset :: "turn_env \<Rightarrow> json \<Rightarrow> bool" where
  "reaches_reset env intent =
     (truthy (js_get intent ''isFlowComplete'') \<and>
      (js_get intent ''flow'' = Some (JStr ''BUY_TICKET'') \<or>
       js_get intent ''flow'' = Some (JStr ''CHECK_IN'') \<or>
       (js_get intent ''flow'' = Some (JStr ''QUERY_FLIGHT'') \<and> http_ok (backend env))))"

text \<open>
  What a run of the message handler needs from the classifier to keep the invariant: a
  \<^verbatim>\<open>CONTINUE_FLOW\<close> intent that the handler gets to see (there is a client and the
  reply parses to it) names no flow exactly when it names no next step, or its handling
  reaches the reset.
\<close>

definition turn_consistent :: "turn_env \<Rightarrow> bool" where
  "turn_consistent env =
     (case classifier env of
        Parsed j \<Rightarrow>
          \<not> client env \<or>
          js_get j ''action'' \<noteq> Some (JStr ''CONTINUE_FLOW'') \<or>
          nullish (js_get j ''flow'') = nullish (js_get j ''nextStep'') \<or>
          reaches_reset env j
      | _ \<Rightarrow> True)"

fun event_consistent :: "event \<Rightarrow> bool" where
  "event_consistent (Message env sock msg) = turn_consistent env"
| "event_consistent _ = True"

text \<open>The failures of the classifier call: no client, a failed request, an unparseable reply.\<close>

definition classifier_failed :: "bool \<Rightarrow> model_reply \<Rightarrow> bool" where
  "classifier_failed cl r = (\<not> cl \<or> (case r of Parsed j \<Rightarrow> False | _ \<Rightarrow> True))"

text \<open>Every session of the registry satisfies the invariant.\<close>

definition all_inv :: "gateway \<Rightarrow> bool" where
  "all_inv g = (\<forall>sock s. userSessions g sock = Some s \<longrightarrow> flow_inv s)"

section \<open>Sample inputs\<close>

text \<open>Inputs on which the theorems below are instantiated and the handlers evaluated.\<close>

definition sample_session :: session where
  "sample_session = new_session ''u1''"

definition sample_message :: message where
  "sample_message =
     \<lparr>msg_id = ClientId ''2024-05-01T10:00:00.900Z'',
      content = Some (JStr ''book FL3940''), timestamp = 900,
      sender = ''user'', userId = ''u1''\<rparr>"

definition sample_env :: "model_reply \<Rightarrow> http_outcome \<Rightarrow> turn_env" where
  "sample_env r h =
     \<lparr>user_saved = True, client = True, classifier = r, backend = h,
      composer = Returns (JStr ''composed''), now = 1000, reply_saved = True\<rparr>"

definition buy_params :: json where
  "buy_params =
     JObj [(''flightNumber'', JStr ''FL3940''), (''flightDate'', JStr ''2024-05-01''),
           (''passengerNames'', JArr [JStr ''John Doe''])]"

definition query_params :: json where
  "query_params =
     JObj [(''origin'', JStr ''JFK''), (''destination'', JStr ''LAX''),
           (''dateFrom'', JStr ''2024-05-01''), (''dateTo'', JStr ''2024-05-01''),
           (''passengers'', JStr ''2'')]"

definition start_buy_intent :: json where
  "start_buy_intent =
     JObj [(''action'', JStr ''START_BUY_FLOW''),
           (''parameters'', JObj [(''flightNumber'', JStr ''FL3940'')])]"

definition continue_buy_intent :: json where
  "continue_buy_intent =
     JObj [(''action'', JStr ''CONTINUE_FLOW''), (''flow'', JStr ''BUY_TICKET''),
           (''nextStep'', JNum 2),
           (''collectedParams'', JObj [(''flightNumber'', JStr ''FL3940''),
                                       (''flightDate'', JStr ''2024-05-01'')]),
           (''isFlowComplete'', JBool False)]"

definition complete_buy_intent :: json where
  "complete_buy_intent =
     JObj [(''action'', JStr ''CONTINUE_FLOW''), (''flow'', JStr ''BUY_TICKET''),
           (''nextStep'', JNum 2), (''collectedParams'', buy_params),
           (''isFlowComplete'', JBool True)]"

definition complete_query_intent :: json where
  "complete_query_intent =
     JObj [(''action'', JStr ''CONTINUE_FLOW''), (''flow'', JStr ''QUERY_FLIGHT''),
           (''nextStep'', JNum 5), (''collectedParams'', query_params),
           (''isFlowComplete'', JBool True)]"

definition complete_refund_intent :: json where
  "complete_refund_intent =
     JObj [(''action'', JStr ''CONTINUE_FLOW''), (''flow'', JStr ''REFUND''),
           (''nextStep'', JNum 2), (''collectedParams'', buy_params),
           (''isFlowComplete'', JBool True)]"

definition stepless_intent :: json where
  "stepless_intent =
     JObj [(''action'', JStr ''CONTINUE_FLOW''), (''flow'', JStr ''BUY_TICKET''),
           (''nextStep'', JNull), (''collectedParams'', JObj []),
           (''isFlowComplete'', JBool False)]"

definition missing_step_intent :: json where
  "missing_step_intent =
     JObj [(''action'', JStr ''CONTINUE_FLOW''), (''flow'', JStr ''BUY_TICKET''),
           (''collectedParams'', JObj []), (''isFlowComplete'', JBool False)]"

definition complete_checkin_intent :: json where
  "complete_checkin_intent =
     JObj [(''action'', JStr ''CONTINUE_FLOW''), (''flow'', JStr ''CHECK_IN''),
           (''nextStep'', JNull),
           (''collectedParams'', JObj [(''flightNumber'', JStr ''FL3940''),
                                       (''date'', JStr ''2024-05-01''),
                                       (''passengerName'', JStr ''John Doe'')]),
           (''isFlowComplete'', JBool True)]"

definition cancel_intent :: json where
  "cancel_intent = JObj [(''action'', JStr ''CANCEL_TICKET'')]"

definition sample_identify :: "nat \<Rightarrow> identify_env" where
  "sample_identify t = \<lparr>fetched = True, opened_at = t, welcome_saved = True\<rparr>"

text \<open>
  Runs of one socket on an empty container. In the first a session is opened, a booking
  flow is started and completed, and a check-in flow is completed by an intent with a null
  next step while the backend is down. In the other two a session is opened and the
  classifier answers with a \<^verbatim>\<open>CONTINUE_FLOW\<close> intent that names a flow and a null
  next step, or a flow and no next step at all.
\<close>

definition booking_run :: "event list" where
  "booking_run =
     [Identify (sample_identify 100) ''sock1'' ''u1'',
      Message (sample_env (Parsed start_buy_intent) (HttpFailed ''unused'')) ''sock1''
        sample_message,
      Message (sample_env (Parsed complete_buy_intent) (HttpOk 200 JNull)) ''sock1''
        sample_message,
      Message (sample_env (Parsed complete_checkin_intent) (HttpFailed ''ECONNREFUSED''))
        ''sock1'' sample_message]"

definition stepless_run :: "event list" where
  "stepless_run =
     [Identify (sample_identify 100) ''sock1'' ''u1'',
      Message (sample_env (Parsed stepless_intent) (HttpFailed ''unused'')) ''sock1''
        sample_message]"

definition missing_step_run :: "event list" where
  "missing_step_run =
     [Identify (sample_identify 100) ''sock1'' ''u1'',
      Message (sample_env (Parsed missing_step_intent) (HttpFailed ''unused'')) ''sock1''
        sample_message]"








text \<open>
  Three sessions on an empty container that are closed and opened again: one whose welcome
  message is not stored, one whose user sends a message with a timestamp before the
  welcome message's, and one whose user sends a message under another user's id.
\<close>

definition unsaved_run :: "event list" where
  "unsaved_run =
     [Identify \<lparr>fetched = True, opened_at = 100, welcome_saved = False\<rparr> ''sock1'' ''u1'',
      Disconnect ''sock1'',
      Identify (sample_identify 200) ''sock2'' ''u1'']"

definition early_message_run :: "event list" where
  "early_message_run =
     [Identify (sample_identify 950) ''sock1'' ''u1'',
      Message (sample_env (Parsed cancel_intent) (HttpFailed ''unused'')) ''sock1''
        sample_message,
      Disconnect ''sock1'',
      Identify (sample_identify 2000) ''sock2'' ''u1'']"

definition foreign_message_run :: "event list" where
  "foreign_message_run =
     [Identify (sample_identify 100) ''sock1'' ''u1'',
      Message (sample_env (Parsed cancel_intent) (HttpFailed ''unused'')) ''sock1''
        (sample_message\<lparr>userId := ''u2''\<rparr>),
      Disconnect ''sock1'',
      Identify (sample_identify 2000) ''sock2'' ''u1'']"

definition fallback_reply :: message where
  "fallback_reply =
     \<lparr>msg_id = ServerId 1000,
      content = Some (JStr
        ''I'm not sure I understand. Could you please rephrase your request?''),
      timestamp = 1000, sender = ''assistant'', userId = ''u1''\<rparr>"

section \<open>Lemmas about the model\<close>

lemmas sample_defs =
  sample_session_def sample_message_def sample_env_def buy_params_def query_params_def
  start_buy_intent_def continue_buy_intent_def complete_buy_intent_def
  complete_query_intent_def complete_refund_intent_def stepless_intent_def
  cancel_intent_def sample_identify_def new_session_def missing_step_intent_def
  complete_checkin_intent_def

lemma or_empty_not_null: "or_empty v \<noteq> JNull"
  by (cases v) (auto simp: or_empty_def or_else_def)

lemma or_empty_absent: "or_empty None = JObj []"
  by (simp add: or_empty_def or_else_def)

lemma or_empty_object: "or_empty (Some (JObj kvs)) = JObj kvs"
  by (simp add: or_empty_def or_else_def)

lemma bookTicket_returns: "\<exists>r. bookTicket p h = Returns r"
  by (cases h) (auto simp: bookTicket_def)

lemma checkIn_returns: "\<exists>r. checkIn p h = Returns r"
  by (cases h) (auto simp: checkIn_def)

lemma handle_intent_continue:
  "js_get intent ''action'' = Some (JStr ''CONTINUE_FLOW'') \<Longrightarrow>
   handle_intent env s intent = Returns (continue_flow env s intent)"
  by (auto simp: handle_intent_def)

lemma process_message_returns:
  assumes "handle_intent env (s\<lparr>conversationHistory := conversationHistory s @ [msg]\<rparr>)
             (detectIntent (client env) (classifier env) (session_state s)) = Returns st"
  shows "process_message env c s msg =
     \<lparr>t_session = (st_session st)\<lparr>conversationHistory := conversationHistory (st_session st) @
          [\<lparr>msg_id = ServerId (now env), content = st_response st, timestamp = now env,
            sender = ''assistant'', userId = session_userId s\<rparr>]\<rparr>,
      t_container = saveMessage (saveMessage c (user_saved env) msg) (reply_saved env)
          \<lparr>msg_id = ServerId (now env), content = st_response st, timestamp = now env,
            sender = ''assistant'', userId = session_userId s\<rparr>,
      t_emitted = [\<lparr>msg_id = ServerId (now env), content = st_response st, timestamp = now env,
            sender = ''assistant'', userId = session_userId s\<rparr>],
      t_calls = st_calls st,
      t_answered = True\<rparr>"
proof -
  have "session_state (s\<lparr>conversationHistory := conversationHistory s @ [msg]\<rparr>) = session_state s"
    by (simp add: session_state_def)
  with assms show ?thesis
    by (simp add: process_message_def Let_def)
qed

lemma branch_calls_le1:
  "length (st_calls (single_query env s intent)) \<le> 1"
  "length (st_calls (single_buy env s intent)) \<le> 1"
  "length (st_calls (single_checkin env s intent)) \<le> 1"
  "length (st_calls (start_flow env s intent f)) \<le> 1"
  "length (st_calls (chat_default s intent)) \<le> 1"
  by (simp_all add: single_query_def single_buy_def single_checkin_def start_flow_def
      chat_default_def split: outcome.split)

lemma continue_calls_le1: "length (st_calls (continue_flow env s intent)) \<le> 1"
  by (simp add: continue_flow_def Let_def split: outcome.split)

lemma handle_intent_calls_le1:
  "handle_intent env s intent = Returns st \<Longrightarrow> length (st_calls st) \<le> 1"
  unfolding handle_intent_def
  using branch_calls_le1 continue_calls_le1
  by (auto split: if_splits)

lemma process_message_calls_le1:
  "length (t_calls (process_message env c s msg)) \<le> 1"
  using handle_intent_calls_le1
  by (fastforce simp: process_message_def Let_def split: outcome.splits)

lemma detectIntent_parsed:
  "cl \<Longrightarrow> p \<noteq> JNull \<Longrightarrow> detectIntent cl (Parsed p) cs = p"
  by (simp add: detectIntent_def detectIntent_try_def processFlowStep_def)

lemma searchFlights_collected:
  "searchFlights (Some (or_empty v)) h =
     (if http_ok h then Returns (case h of HttpOk status data \<Rightarrow> Payload status data)
      else Throws (''Failed to search flights: '' @
             (case h of HttpRejected status data e \<Rightarrow> e | HttpFailed e \<Rightarrow> e)))"
  by (cases h) (simp_all add: searchFlights_def or_empty_not_null http_ok_def)

lemma continue_flow_complete:
  assumes "truthy (js_get intent ''isFlowComplete'')"
  shows "continue_flow env s intent =
     (let s1 = s\<lparr>activeFlow := js_get intent ''flow'',
                  currentStep := js_get intent ''nextStep'',
                  collectedParams := or_empty (js_get intent ''collectedParams'')\<rparr>
      in case flow_adapter (js_get intent ''flow'') of
           None \<Rightarrow> \<lparr>st_session = s1, st_response = Some (JStr []), st_calls = []\<rparr>
         | Some a \<Rightarrow>
             \<lparr>st_session = (if a = SearchFlights \<and> \<not> http_ok (backend env) then s1 else reset_flow s1),
              st_response = Some (generateResponse (client env) (composer env)),
              st_calls = [(a, Some (or_empty (js_get intent ''collectedParams'')))]\<rparr>)"
proof -
  obtain r1 where r1: "bookTicket (Some (or_empty (js_get intent ''collectedParams''))) (backend env) = Returns r1"
    using bookTicket_returns by blast
  obtain r2 where r2: "checkIn (Some (or_empty (js_get intent ''collectedParams''))) (backend env) = Returns r2"
    using checkIn_returns by blast
  show ?thesis
    using assms r1 r2
    by (simp add: continue_flow_def flow_adapter_def searchFlights_collected Let_def)
qed


lemma continue_complete_step:
  assumes "js_get intent ''action'' = Some (JStr ''CONTINUE_FLOW'')"
    and "truthy (js_get intent ''isFlowComplete'')"
  shows "handle_intent env s intent = Returns
     (case flow_adapter (js_get intent ''flow'') of
        None \<Rightarrow>
          \<lparr>st_session = s\<lparr>activeFlow := js_get intent ''flow'',
                  currentStep := js_get intent ''nextStep'',
                  collectedParams := or_empty (js_get intent ''collectedParams'')\<rparr>,
           st_response = Some (JStr []), st_calls = []\<rparr>
      | Some a \<Rightarrow>
          \<lparr>st_session =
             (if a = SearchFlights \<and> \<not> http_ok (backend env)
              then s\<lparr>activeFlow := js_get intent ''flow'',
                  currentStep := js_get intent ''nextStep'',
                  collectedParams := or_empty (js_get intent ''collectedParams'')\<rparr>
              else s\<lparr>activeFlow := Some JNull, currentStep := Some JNull,
                  collectedParams := or_empty (js_get intent ''collectedParams'')\<rparr>),
           st_response = Some (generateResponse (client env) (composer env)),
           st_calls = [(a, Some (or_empty (js_get intent ''collectedParams'')))]\<rparr>)"
  using assms
  by (simp add: handle_intent_continue continue_flow_complete Let_def reset_flow_def
      split: option.split)

lemma process_message_calls:
  assumes "detectIntent (client env) (classifier env) (session_state s) = intent"
    and "handle_intent env (s\<lparr>conversationHistory := conversationHistory s @ [msg]\<rparr>) intent
           = Returns st"
  shows "t_calls (process_message env c s msg) = st_calls st"
    and "activeFlow (t_session (process_message env c s msg)) = activeFlow (st_session st)"
    and "currentStep (t_session (process_message env c s msg)) = currentStep (st_session st)"
    and "collectedParams (t_session (process_message env c s msg)) = collectedParams (st_session st)"
    and "map content (t_emitted (process_message env c s msg)) = [st_response st]"
    and "t_answered (process_message env c s msg)"
  using process_message_returns [of env s msg st c] assms by simp_all

lemma recognized_iff:
  "recognized intent \<longleftrightarrow>
     js_get intent ''action'' \<in> Some ` JStr ` set recognized_actions"
  by (auto simp: recognized_def split: option.splits json.splits)

lemma handle_intent_default:
  assumes "intent \<noteq> JNull" and "\<not> recognized intent"
  shows "handle_intent env s intent = Returns (chat_default s intent)"
  using assms by (auto simp: handle_intent_def recognized_iff recognized_actions_def)

lemma handle_intent_chat:
  assumes "js_get intent ''action'' = Some (JStr ''CHAT'')"
  shows "handle_intent env s intent = Returns (chat_default s intent)"
  using assms by (auto simp: handle_intent_def)

lemma handle_intent_start:
  assumes "js_get intent ''action'' \<in>
             {Some (JStr ''START_QUERY_FLOW''), Some (JStr ''START_BUY_FLOW''),
              Some (JStr ''START_CHECKIN_FLOW'')}"
  shows "\<exists>f. handle_intent env s intent = Returns (start_flow env s intent f)"
proof -
  have "intent \<noteq> JNull" using assms by auto
  with assms show ?thesis by (auto simp: handle_intent_def)
qed

lemma continue_flow_params:
  "collectedParams (st_session (continue_flow env s intent)) =
     or_empty (js_get intent ''collectedParams'')"
  "\<forall>call \<in> set (st_calls (continue_flow env s intent)).
     snd call = Some (or_empty (js_get intent ''collectedParams''))"
  by (simp_all add: continue_flow_def Let_def reset_flow_def split: outcome.split)

lemma handle_intent_call_args:
  assumes "handle_intent env s intent = Returns st" and "call \<in> set (st_calls st)"
  shows "snd call = js_get intent ''parameters'' \<or>
         snd call = Some (or_empty (js_get intent ''collectedParams''))"
proof -
  have "st = single_query env s intent \<or> st = single_buy env s intent \<or>
        st = single_checkin env s intent \<or> (\<exists>f. st = start_flow env s intent f) \<or>
        st = continue_flow env s intent \<or> st = chat_default s intent"
    using assms(1) by (auto simp: handle_intent_def split: if_splits)
  then show ?thesis
    using assms(2) continue_flow_params(2) [of env s intent]
    by (auto simp: single_query_def single_buy_def single_checkin_def start_flow_def
        chat_default_def split: outcome.splits)
qed

lemma flow_inv_history [simp]:
  "flow_inv (s\<lparr>conversationHistory := h\<rparr>) = flow_inv s"
  by (simp add: flow_inv_def)

lemma flow_inv_new_session: "flow_inv (new_session uid)"
  by (simp add: flow_inv_def new_session_def)

lemma flow_inv_reset: "flow_inv (reset_flow s)"
  by (simp add: flow_inv_def reset_flow_def)

lemma flow_inv_assigned:
  "flow_inv (s\<lparr>activeFlow := f, currentStep := n, collectedParams := p\<rparr>) =
     (nullish f = nullish n)"
  by (simp add: flow_inv_def)

lemma continue_flow_session:
  "st_session (continue_flow env s intent) =
     (if reaches_reset env intent
      then reset_flow (s\<lparr>activeFlow := js_get intent ''flow'',
             currentStep := js_get intent ''nextStep'',
             collectedParams := or_empty (js_get intent ''collectedParams'')\<rparr>)
      else s\<lparr>activeFlow := js_get intent ''flow'',
             currentStep := js_get intent ''nextStep'',
             collectedParams := or_empty (js_get intent ''collectedParams'')\<rparr>)"
proof (cases "truthy (js_get intent ''isFlowComplete'')")
  case True
  show ?thesis
    by (simp add: continue_flow_complete [OF True] Let_def flow_adapter_def reaches_reset_def
        True)
next
  case False
  then show ?thesis by (simp add: continue_flow_def reaches_reset_def)
qed

lemma continue_flow_inv:
  "flow_inv (st_session (continue_flow env s intent)) =
     (nullish (js_get intent ''flow'') = nullish (js_get intent ''nextStep'') \<or>
      reaches_reset env intent)"
  by (simp add: continue_flow_session flow_inv_reset flow_inv_assigned)

lemma handle_intent_session:
  assumes "handle_intent env s intent = Returns st"
  shows "st_session st = s
       \<or> (\<exists>f. st_session st = s\<lparr>activeFlow := Some (JStr f), currentStep := Some (JNum 1),
               collectedParams := or_empty (js_get intent ''parameters'')\<rparr>)
       \<or> (js_get intent ''action'' = Some (JStr ''CONTINUE_FLOW'') \<and>
            st_session st = st_session (continue_flow env s intent))"
proof -
  have "st = single_query env s intent \<or> st = single_buy env s intent \<or>
        st = single_checkin env s intent \<or> (\<exists>f. st = start_flow env s intent f) \<or>
        (st = continue_flow env s intent \<and>
           js_get intent ''action'' = Some (JStr ''CONTINUE_FLOW'')) \<or>
        st = chat_default s intent"
    using assms by (simp add: handle_intent_def split: if_splits) blast+
  moreover have "st_session (single_query env s intent) = s"
    "st_session (single_buy env s intent) = s"
    "st_session (single_checkin env s intent) = s"
    "st_session (chat_default s intent) = s"
    by (simp_all add: single_query_def single_buy_def single_checkin_def chat_default_def
        split: outcome.split)
  moreover have "st_session (start_flow env s intent f) =
      s\<lparr>activeFlow := Some (JStr f), currentStep := Some (JNum 1),
               collectedParams := or_empty (js_get intent ''parameters'')\<rparr>" for f
    by (simp add: start_flow_def)
  ultimately show ?thesis by metis
qed

lemma handle_intent_inv:
  assumes "handle_intent env s intent = Returns st" and "flow_inv s"
    and "js_get intent ''action'' \<noteq> Some (JStr ''CONTINUE_FLOW'')"
  shows "flow_inv (st_session st)"
  using handle_intent_session [OF assms(1)]
proof (elim disjE exE conjE)
  assume "st_session st = s"
  with assms(2) show ?thesis by simp
next
  fix f
  assume "st_session st = s\<lparr>activeFlow := Some (JStr f), currentStep := Some (JNum 1),
               collectedParams := or_empty (js_get intent ''parameters'')\<rparr>"
  then show ?thesis by (simp add: flow_inv_def nullish_def)
next
  assume "js_get intent ''action'' = Some (JStr ''CONTINUE_FLOW'')"
  with assms(3) show ?thesis by simp
qed

lemma detectIntent_cases:
  "detectIntent cl r cs = fallback_intent \<or> (\<exists>p. r = Parsed p \<and> detectIntent cl r cs = p)"
  by (simp add: detectIntent_def detectIntent_try_def processFlowStep_def
      split: model_reply.split)

lemma detectIntent_continue:
  "js_get (detectIntent cl r cs) ''action'' = Some (JStr ''CONTINUE_FLOW'') \<longleftrightarrow>
     cl \<and> (\<exists>p. r = Parsed p \<and> js_get p ''action'' = Some (JStr ''CONTINUE_FLOW''))"
  by (cases r)
     (auto simp: detectIntent_def detectIntent_try_def processFlowStep_def fallback_intent_def)

lemma process_message_session:
  "t_session (process_message env c s msg) =
     (case handle_intent env (s\<lparr>conversationHistory := conversationHistory s @ [msg]\<rparr>)
             (detectIntent (client env) (classifier env) (session_state s)) of
        Returns st \<Rightarrow> (st_session st)\<lparr>conversationHistory :=
            conversationHistory (st_session st) @
              [\<lparr>msg_id = ServerId (now env), content = st_response st, timestamp = now env,
                sender = ''assistant'', userId = session_userId s\<rparr>]\<rparr>
      | Throws e \<Rightarrow> s\<lparr>conversationHistory := conversationHistory s @ [msg]\<rparr>)"
proof -
  have "session_state (s\<lparr>conversationHistory := conversationHistory s @ [msg]\<rparr>) = session_state s"
    by (simp add: session_state_def)
  then show ?thesis
    by (simp add: process_message_def Let_def split: outcome.split)
qed

lemma process_message_inv_iff:
  assumes "flow_inv s"
  shows "flow_inv (t_session (process_message env c s msg)) = turn_consistent env"
proof -
  let ?s1 = "s\<lparr>conversationHistory := conversationHistory s @ [msg]\<rparr>"
  let ?i = "detectIntent (client env) (classifier env) (session_state s)"
  show ?thesis
  proof (cases "js_get ?i ''action'' = Some (JStr ''CONTINUE_FLOW'')")
    case True
    then obtain p where p: "client env" "classifier env = Parsed p"
      "js_get p ''action'' = Some (JStr ''CONTINUE_FLOW'')"
      by (auto simp: detectIntent_continue)
    then have "p \<noteq> JNull" by auto
    with p have i: "?i = p" by (simp add: detectIntent_parsed)
    have "t_session (process_message env c s msg) =
            (st_session (continue_flow env ?s1 p))\<lparr>conversationHistory :=
              conversationHistory (st_session (continue_flow env ?s1 p)) @
              [\<lparr>msg_id = ServerId (now env), content = st_response (continue_flow env ?s1 p),
                timestamp = now env, sender = ''assistant'', userId = session_userId s\<rparr>]\<rparr>"
      by (simp add: process_message_session i handle_intent_continue [OF p(3)])
    then have "flow_inv (t_session (process_message env c s msg)) =
        (nullish (js_get p ''flow'') = nullish (js_get p ''nextStep'') \<or> reaches_reset env p)"
      by (simp add: continue_flow_inv)
    with p show ?thesis by (simp add: turn_consistent_def)
  next
    case False
    have "flow_inv (t_session (process_message env c s msg))"
    proof (cases "handle_intent env ?s1 ?i")
      case (Returns st)
      then have "flow_inv (st_session st)"
        using handle_intent_inv [OF _ _ False] assms by simp
      with Returns show ?thesis by (simp add: process_message_session)
    next
      case (Throws e)
      with assms show ?thesis by (simp add: process_message_session)
    qed
    moreover have "turn_consistent env"
      using False
      by (auto simp: turn_consistent_def detectIntent_continue split: model_reply.split)
    ultimately show ?thesis by simp
  qed
qed

lemma process_message_inv:
  assumes "flow_inv s" and "turn_consistent env"
  shows "flow_inv (t_session (process_message env c s msg))"
  using process_message_inv_iff [OF assms(1)] assms(2) by simp

lemma apply_event_inv:
  assumes "all_inv g" and "event_consistent e"
  shows "all_inv (apply_event g e)"
proof (cases e)
  case (Identify env sock uid)
  with assms(1) show ?thesis
    by (auto simp: all_inv_def identify_def Let_def flow_inv_new_session)
next
  case (Message env sock msg)
  with assms show ?thesis
    by (auto simp: all_inv_def on_message_def Let_def process_message_inv
        split: option.splits if_splits)
next
  case (Disconnect sock)
  with assms(1) show ?thesis
    by (auto simp: all_inv_def disconnect_def split: if_splits)
qed

lemma run_inv:
  assumes "all_inv g" and "\<forall>e \<in> set evs. event_consistent e"
  shows "all_inv (run g evs)"
  using assms unfolding run_def
  by (induction evs arbitrary: g) (simp_all add: apply_event_inv)

lemmas run_defs =
  run_def start_def identify_def on_message_def process_message_def handle_intent_def
  start_flow_def continue_flow_def detectIntent_def detectIntent_try_def processFlowStep_def
  session_state_def getConversationHistory_def query_recent_def saveMessage_def
  welcomeMessage_def default_limit_def bookTicket_def checkIn_def reset_flow_def or_empty_def
  or_else_def generateResponse_def Let_def




















section \<open>The transitions of the flow state machine\<close>

text \<open>
  C5. A \<^verbatim>\<open>CONTINUE_FLOW\<close> intent whose \<^verbatim>\<open>isFlowComplete\<close> is falsy sets
  \<open>activeFlow\<close> to \<^verbatim>\<open>intent.flow\<close>, \<open>currentStep\<close> to \<^verbatim>\<open>intent.nextStep\<close> and
  \<open>collectedParams\<close> to \<^verbatim>\<open>intent.collectedParams || {}\<close>, whatever the session had
  collected before (nothing is merged), and calls no adapter. The new \<open>collectedParams\<close> is
  \<^verbatim>\<open>{}\<close> when the intent has none and the intent's own when that is an object.
\<close>

theorem continue_incomplete_replaces:
  assumes "js_get intent ''action'' = Some (JStr ''CONTINUE_FLOW'')"
    and "\<not> truthy (js_get intent ''isFlowComplete'')"
  shows "handle_intent env s intent = Returns
           \<lparr>st_session = s\<lparr>activeFlow := js_get intent ''flow'',
                             currentStep := js_get intent ''nextStep'',
                             collectedParams := or_empty (js_get intent ''collectedParams'')\<rparr>,
            st_response = Some (generateResponse (client env) (composer env)),
            st_calls = []\<rparr>
       \<and> (js_get intent ''collectedParams'' = None \<longrightarrow>
            or_empty (js_get intent ''collectedParams'') = JObj [])
       \<and> (\<forall>kvs. js_get intent ''collectedParams'' = Some (JObj kvs) \<longrightarrow>
            or_empty (js_get intent ''collectedParams'') = JObj kvs)"
  using assms
  by (simp add: handle_intent_continue continue_flow_def or_empty_absent or_empty_object)

theorem continue_incomplete_replaces_witness:
  "js_get continue_buy_intent ''action'' = Some (JStr ''CONTINUE_FLOW'')
   \<and> \<not> truthy (js_get continue_buy_intent ''isFlowComplete'')
   \<and> handle_intent (sample_env (Parsed continue_buy_intent) (HttpFailed ''down''))
        (sample_session\<lparr>collectedParams := JObj [(''passengerName'', JStr ''Jane'')]\<rparr>)
        continue_buy_intent =
      Returns
        \<lparr>st_session =
           \<lparr>session_userId = ''u1'', activeFlow = Some (JStr ''BUY_TICKET''),
            currentStep = Some (JNum 2),
            collectedParams = JObj [(''flightNumber'', JStr ''FL3940''),
                                    (''flightDate'', JStr ''2024-05-01'')],
            conversationHistory = []\<rparr>,
         st_response = Some (JStr ''composed''),
         st_calls = []\<rparr>"
  using continue_incomplete_replaces
    [of continue_buy_intent "sample_env (Parsed continue_buy_intent) (HttpFailed ''down'')"
        "sample_session\<lparr>collectedParams := JObj [(''passengerName'', JStr ''Jane'')]\<rparr>"]
  by (simp add: sample_defs or_empty_def or_else_def generateResponse_def)

text \<open>
  C6. A \<^verbatim>\<open>START_QUERY_FLOW\<close>, \<^verbatim>\<open>START_BUY_FLOW\<close> or \<^verbatim>\<open>START_CHECKIN_FLOW\<close>
  intent sets \<open>activeFlow\<close> to \<^verbatim>\<open>QUERY_FLIGHT\<close>, \<^verbatim>\<open>BUY_TICKET\<close> or
  \<^verbatim>\<open>CHECK_IN\<close>, \<open>currentStep\<close> to 1 and \<open>collectedParams\<close> to
  \<^verbatim>\<open>intent.parameters || {}\<close> (\<^verbatim>\<open>{}\<close> when the intent has no parameters, the
  intent's own when they are an object), and calls no adapter.
\<close>

theorem start_flow_sets_state:
  assumes "(a, f) \<in> {(''START_QUERY_FLOW'', ''QUERY_FLIGHT''), (''START_BUY_FLOW'', ''BUY_TICKET''),
                     (''START_CHECKIN_FLOW'', ''CHECK_IN'')}"
    and "js_get intent ''action'' = Some (JStr a)"
  shows "handle_intent env s intent = Returns
           \<lparr>st_session = s\<lparr>activeFlow := Some (JStr f),
                             currentStep := Some (JNum 1),
                             collectedParams := or_empty (js_get intent ''parameters'')\<rparr>,
            st_response = Some (generateResponse (client env) (composer env)),
            st_calls = []\<rparr>
       \<and> (js_get intent ''parameters'' = None \<longrightarrow>
            or_empty (js_get intent ''parameters'') = JObj [])
       \<and> (\<forall>kvs. js_get intent ''parameters'' = Some (JObj kvs) \<longrightarrow>
            or_empty (js_get intent ''parameters'') = JObj kvs)"
proof -
  have "intent \<noteq> JNull" using assms(2) by auto
  with assms show ?thesis
    by (auto simp: handle_intent_def start_flow_def or_empty_absent or_empty_object)
qed

theorem start_flow_sets_state_witness:
  "js_get start_buy_intent ''action'' = Some (JStr ''START_BUY_FLOW'')
   \<and> handle_intent (sample_env (Parsed start_buy_intent) (HttpFailed ''down''))
        sample_session start_buy_intent =
      Returns
        \<lparr>st_session =
           \<lparr>session_userId = ''u1'', activeFlow = Some (JStr ''BUY_TICKET''),
            currentStep = Some (JNum 1),
            collectedParams = JObj [(''flightNumber'', JStr ''FL3940'')],
            conversationHistory = []\<rparr>,
         st_response = Some (JStr ''composed''),
         st_calls = []\<rparr>"
  using start_flow_sets_state
    [of "''START_BUY_FLOW''" "''BUY_TICKET''" start_buy_intent
        "sample_env (Parsed start_buy_intent) (HttpFailed ''down'')" sample_session]
  by (simp add: sample_defs or_empty_def or_else_def generateResponse_def)

text \<open>
  C7. An intent whose \<^verbatim>\<open>action\<close> is none of the eight names the switch has a label
  for takes the \<^verbatim>\<open>default\<close> branch, which is the \<^verbatim>\<open>CHAT\<close> branch: the reply is
  \<^verbatim>\<open>intent.response\<close> or the generic fallback text, the session is unchanged and no
  adapter is called; a \<^verbatim>\<open>CHAT\<close> intent with the same \<^verbatim>\<open>response\<close> gives the same
  result. For the handler as a whole: the flow state is unchanged and no adapter is called.
\<close>

theorem unrecognized_action_is_chat:
  assumes "intent \<noteq> JNull" and "\<not> recognized intent"
  shows "handle_intent env s intent = Returns
           \<lparr>st_session = s,
            st_response = Some (or_else (js_get intent ''response'')
              (JStr ''I'm not sure I understand. Could you please rephrase your request?'')),
            st_calls = []\<rparr>
       \<and> (\<forall>chat. js_get chat ''action'' = Some (JStr ''CHAT'') \<and>
                  js_get chat ''response'' = js_get intent ''response'' \<longrightarrow>
                  handle_intent env s chat = handle_intent env s intent)
       \<and> (detectIntent (client env) (classifier env) (session_state s) = intent \<longrightarrow>
            t_calls (process_message env c s msg) = [] \<and>
            t_answered (process_message env c s msg) \<and>
            activeFlow (t_session (process_message env c s msg)) = activeFlow s \<and>
            currentStep (t_session (process_message env c s msg)) = currentStep s \<and>
            collectedParams (t_session (process_message env c s msg)) = collectedParams s)"
proof (intro conjI allI impI)
  show d: "handle_intent env s intent = Returns
           \<lparr>st_session = s,
            st_response = Some (or_else (js_get intent ''response'')
              (JStr ''I'm not sure I understand. Could you please rephrase your request?'')),
            st_calls = []\<rparr>" for s
    using handle_intent_default [OF assms] by (simp add: chat_default_def)
  show "handle_intent env s chat = handle_intent env s intent"
    if "js_get chat ''action'' = Some (JStr ''CHAT'') \<and>
        js_get chat ''response'' = js_get intent ''response''" for chat
    using that handle_intent_chat [of chat env s] d [of s] by (simp add: chat_default_def)
  assume i: "detectIntent (client env) (classifier env) (session_state s) = intent"
  have p: "process_message env c s msg = 
     \<lparr>t_session = s\<lparr>conversationHistory := conversationHistory s @ [msg] @
          [\<lparr>msg_id = ServerId (now env), content = Some (or_else (js_get intent ''response'')
              (JStr ''I'm not sure I understand. Could you please rephrase your request?'')), timestamp = now env,
            sender = ''assistant'', userId = session_userId s\<rparr>]\<rparr>,
      t_container = saveMessage (saveMessage c (user_saved env) msg) (reply_saved env)
          \<lparr>msg_id = ServerId (now env), content = Some (or_else (js_get intent ''response'')
              (JStr ''I'm not sure I understand. Could you please rephrase your request?'')), timestamp = now env,
            sender = ''assistant'', userId = session_userId s\<rparr>,
      t_emitted = [\<lparr>msg_id = ServerId (now env), content = Some (or_else (js_get intent ''response'')
              (JStr ''I'm not sure I understand. Could you please rephrase your request?'')), timestamp = now env,
            sender = ''assistant'', userId = session_userId s\<rparr>],
      t_calls = [],
      t_answered = True\<rparr>"
    using process_message_returns [of env s msg _ c] d [of "s\<lparr>conversationHistory := conversationHistory s @ [msg]\<rparr>"] i
    by simp
  show "t_calls (process_message env c s msg) = []"
    "t_answered (process_message env c s msg)"
    "activeFlow (t_session (process_message env c s msg)) = activeFlow s"
    "currentStep (t_session (process_message env c s msg)) = currentStep s"
    "collectedParams (t_session (process_message env c s msg)) = collectedParams s"
    by (simp_all add: p)
qed

theorem unrecognized_action_is_chat_witness:
  "cancel_intent \<noteq> JNull \<and> \<not> recognized cancel_intent
   \<and> detectIntent True (Parsed cancel_intent) (session_state sample_session) = cancel_intent
   \<and> handle_intent (sample_env (Parsed cancel_intent) (HttpOk 200 (JArr []))) sample_session
        cancel_intent =
      Returns
        \<lparr>st_session = sample_session,
         st_response = Some (JStr ''I'm not sure I understand. Could you please rephrase your request?''),
         st_calls = []\<rparr>
   \<and> t_calls (process_message (sample_env (Parsed cancel_intent) (HttpOk 200 (JArr [])))
        (Some []) sample_session sample_message) = []"
  using unrecognized_action_is_chat
    [of cancel_intent "sample_env (Parsed cancel_intent) (HttpOk 200 (JArr []))" sample_session
        "Some []" sample_message]
  by (simp add: sample_defs or_else_def recognized_def recognized_actions_def
      detectIntent_def detectIntent_try_def)

text \<open>
  C10. A \<^verbatim>\<open>CONTINUE_FLOW\<close> intent with a truthy \<^verbatim>\<open>isFlowComplete\<close> whose
  \<^verbatim>\<open>flow\<close> is none of \<^verbatim>\<open>QUERY_FLIGHT\<close>, \<^verbatim>\<open>BUY_TICKET\<close>, \<^verbatim>\<open>CHECK_IN\<close> calls
  no adapter, leaves \<^verbatim>\<open>responseContent\<close> the empty string, and leaves the session with
  \<open>activeFlow\<close> = \<^verbatim>\<open>intent.flow\<close> and \<open>currentStep\<close> = \<^verbatim>\<open>intent.nextStep\<close>: no reset
  is executed. The handler emits one assistant message, whose content is the empty string.
\<close>

theorem completed_unknown_flow_keeps_state:
  assumes "js_get intent ''action'' = Some (JStr ''CONTINUE_FLOW'')"
    and "truthy (js_get intent ''isFlowComplete'')"
    and "js_get intent ''flow'' \<notin>
           {Some (JStr ''QUERY_FLIGHT''), Some (JStr ''BUY_TICKET''), Some (JStr ''CHECK_IN'')}"
  shows "handle_intent env s intent = Returns
           \<lparr>st_session = s\<lparr>activeFlow := js_get intent ''flow'',
                             currentStep := js_get intent ''nextStep'',
                             collectedParams := or_empty (js_get intent ''collectedParams'')\<rparr>,
            st_response = Some (JStr []),
            st_calls = []\<rparr>
       \<and> (detectIntent (client env) (classifier env) (session_state s) = intent \<longrightarrow>
            t_calls (process_message env c s msg) = [] \<and>
            map content (t_emitted (process_message env c s msg)) = [Some (JStr [])] \<and>
            activeFlow (t_session (process_message env c s msg)) = js_get intent ''flow'' \<and>
            currentStep (t_session (process_message env c s msg)) = js_get intent ''nextStep'')"
proof -
  have f: "flow_adapter (js_get intent ''flow'') = None"
    using assms(3) by (simp add: flow_adapter_def)
  have h: "handle_intent env s intent = Returns
           \<lparr>st_session = s\<lparr>activeFlow := js_get intent ''flow'',
                             currentStep := js_get intent ''nextStep'',
                             collectedParams := or_empty (js_get intent ''collectedParams'')\<rparr>,
            st_response = Some (JStr []),
            st_calls = []\<rparr>" for s
    using assms(1,2) f by (simp add: handle_intent_continue continue_flow_complete)
  show ?thesis
  proof (intro conjI impI)
    assume i: "detectIntent (client env) (classifier env) (session_state s) = intent"
    note p = process_message_returns
      [of env s msg _ c, OF h [of "s\<lparr>conversationHistory := conversationHistory s @ [msg]\<rparr>", folded i]]
    show "t_calls (process_message env c s msg) = []"
      "map content (t_emitted (process_message env c s msg)) = [Some (JStr [])]"
      "activeFlow (t_session (process_message env c s msg)) = js_get intent ''flow''"
      "currentStep (t_session (process_message env c s msg)) = js_get intent ''nextStep''"
      by (simp_all add: p i)
  qed (rule h)
qed

theorem completed_unknown_flow_keeps_state_witness:
  "js_get complete_refund_intent ''action'' = Some (JStr ''CONTINUE_FLOW'')
   \<and> truthy (js_get complete_refund_intent ''isFlowComplete'')
   \<and> js_get complete_refund_intent ''flow'' = Some (JStr ''REFUND'')
   \<and> detectIntent True (Parsed complete_refund_intent) (session_state sample_session) =
       complete_refund_intent
   \<and> handle_intent (sample_env (Parsed complete_refund_intent) (HttpOk 200 JNull))
        sample_session complete_refund_intent =
      Returns
        \<lparr>st_session =
           \<lparr>session_userId = ''u1'', activeFlow = Some (JStr ''REFUND''),
            currentStep = Some (JNum 2), collectedParams = buy_params,
            conversationHistory = []\<rparr>,
         st_response = Some (JStr []),
         st_calls = []\<rparr>
   \<and> map content (t_emitted (process_message
         (sample_env (Parsed complete_refund_intent) (HttpOk 200 JNull))
         (Some []) sample_session sample_message)) = [Some (JStr [])]"
  using completed_unknown_flow_keeps_state
    [of complete_refund_intent "sample_env (Parsed complete_refund_intent) (HttpOk 200 JNull)"
        sample_session "Some []" sample_message]
  by (simp add: sample_defs or_empty_def or_else_def detectIntent_def detectIntent_try_def
      processFlowStep_def session_state_def)

text \<open>
  C2, as amended. A \<^verbatim>\<open>CONTINUE_FLOW\<close> intent with a truthy \<^verbatim>\<open>isFlowComplete\<close>
  causes exactly one adapter call when \<^verbatim>\<open>intent.flow\<close> is one of the three flow
  names, on that flow's adapter and with the session's final \<open>collectedParams\<close>, which is
  \<^verbatim>\<open>intent.collectedParams || {}\<close>; for any other \<^verbatim>\<open>intent.flow\<close> it causes none.
  The session before is arbitrary, so this holds after any sequence of intents. No run of
  the message handler makes more than one adapter call.
\<close>

theorem completion_dispatch_count:
  assumes "js_get intent ''action'' = Some (JStr ''CONTINUE_FLOW'')"
    and "truthy (js_get intent ''isFlowComplete'')"
  shows "(\<exists>st. handle_intent env s intent = Returns st \<and>
            collectedParams (st_session st) = or_empty (js_get intent ''collectedParams'') \<and>
            st_calls st =
              (case flow_adapter (js_get intent ''flow'') of
                 Some a \<Rightarrow> [(a, Some (or_empty (js_get intent ''collectedParams'')))]
               | None \<Rightarrow> []))
       \<and> (detectIntent (client env) (classifier env) (session_state s) = intent \<longrightarrow>
            t_calls (process_message env c s msg) =
              (case flow_adapter (js_get intent ''flow'') of
                 Some a \<Rightarrow> [(a, Some (or_empty (js_get intent ''collectedParams'')))]
               | None \<Rightarrow> []))
       \<and> (\<forall>env' c' s' msg'. length (t_calls (process_message env' c' s' msg')) \<le> 1)"
proof (intro conjI impI allI)
  show "\<exists>st. handle_intent env s intent = Returns st \<and>
            collectedParams (st_session st) = or_empty (js_get intent ''collectedParams'') \<and>
            st_calls st =
              (case flow_adapter (js_get intent ''flow'') of
                 Some a \<Rightarrow> [(a, Some (or_empty (js_get intent ''collectedParams'')))]
               | None \<Rightarrow> [])"
    by (simp add: continue_complete_step [OF assms] split: option.split)
  show "length (t_calls (process_message env' c' s' msg')) \<le> 1" for env' c' s' msg'
    by (rule process_message_calls_le1)
  assume i: "detectIntent (client env) (classifier env) (session_state s) = intent"
  show "t_calls (process_message env c s msg) =
              (case flow_adapter (js_get intent ''flow'') of
                 Some a \<Rightarrow> [(a, Some (or_empty (js_get intent ''collectedParams'')))]
               | None \<Rightarrow> [])"
    by (simp add: process_message_calls(1) [OF i continue_complete_step [OF assms]]
        split: option.split)
qed

theorem completion_dispatch_count_witness:
  "js_get complete_buy_intent ''action'' = Some (JStr ''CONTINUE_FLOW'')
   \<and> truthy (js_get complete_buy_intent ''isFlowComplete'')
   \<and> detectIntent True (Parsed complete_buy_intent) (session_state sample_session) =
       complete_buy_intent
   \<and> t_calls (process_message (sample_env (Parsed complete_buy_intent) (HttpOk 200 JNull))
        (Some []) sample_session sample_message) = [(BookTicket, Some buy_params)]"
  using completion_dispatch_count
    [of complete_buy_intent "sample_env (Parsed complete_buy_intent) (HttpOk 200 JNull)"
        sample_session "Some []" sample_message]
  by (simp add: sample_defs or_empty_def or_else_def detectIntent_def detectIntent_try_def
      processFlowStep_def session_state_def flow_adapter_def)

text \<open>
  The claim C2 as stated fails: a completed \<^verbatim>\<open>CONTINUE_FLOW\<close> whose flow is
  \<^verbatim>\<open>REFUND\<close> makes no adapter call.
\<close>

theorem completion_dispatch_counterexample:
  "js_get complete_refund_intent ''action'' = Some (JStr ''CONTINUE_FLOW'')
   \<and> truthy (js_get complete_refund_intent ''isFlowComplete'')
   \<and> detectIntent True (Parsed complete_refund_intent) (session_state sample_session) =
       complete_refund_intent
   \<and> length (t_calls (process_message
        (sample_env (Parsed complete_refund_intent) (HttpOk 200 JNull))
        (Some []) sample_session sample_message)) = 0"
  by (simp add: sample_defs process_message_def handle_intent_def continue_flow_def
      detectIntent_def detectIntent_try_def processFlowStep_def session_state_def Let_def)

text \<open>
  C3, as amended. After a completion dispatch (a \<^verbatim>\<open>CONTINUE_FLOW\<close> intent with a truthy
  \<^verbatim>\<open>isFlowComplete\<close> whose flow has an adapter, which is called once) for
  \<^verbatim>\<open>BUY_TICKET\<close> or \<^verbatim>\<open>CHECK_IN\<close>, \<open>activeFlow\<close> and \<open>currentStep\<close> are null
  whatever the backend's outcome: these adapters return their errors as values. For
  \<^verbatim>\<open>QUERY_FLIGHT\<close> they are null when the search request succeeds; when it is rejected
  or fails, \<^verbatim>\<open>searchFlights\<close> throws, the reset at the end of the \<^verbatim>\<open>try\<close> is not
  reached, and the session keeps \<open>activeFlow\<close> = \<^verbatim>\<open>QUERY_FLIGHT\<close> and
  \<open>currentStep\<close> = \<^verbatim>\<open>intent.nextStep\<close>.
\<close>

theorem completion_reset_unless_search_throws:
  assumes "js_get intent ''action'' = Some (JStr ''CONTINUE_FLOW'')"
    and "truthy (js_get intent ''isFlowComplete'')"
    and "flow_adapter (js_get intent ''flow'') = Some a"
  shows "(\<exists>st. handle_intent env s intent = Returns st \<and>
            st_calls st = [(a, Some (or_empty (js_get intent ''collectedParams'')))] \<and>
            (if a = SearchFlights \<and> \<not> http_ok (backend env)
             then activeFlow (st_session st) = Some (JStr ''QUERY_FLIGHT'') \<and>
                  currentStep (st_session st) = js_get intent ''nextStep''
             else activeFlow (st_session st) = Some JNull \<and>
                  currentStep (st_session st) = Some JNull))
       \<and> (detectIntent (client env) (classifier env) (session_state s) = intent \<longrightarrow>
            (if a = SearchFlights \<and> \<not> http_ok (backend env)
             then activeFlow (t_session (process_message env c s msg)) = Some (JStr ''QUERY_FLIGHT'') \<and>
                  currentStep (t_session (process_message env c s msg)) = js_get intent ''nextStep''
             else activeFlow (t_session (process_message env c s msg)) = Some JNull \<and>
                  currentStep (t_session (process_message env c s msg)) = Some JNull))"
proof -
  have q: "js_get intent ''flow'' = Some (JStr ''QUERY_FLIGHT'')" if "a = SearchFlights"
    using assms(3) that by (auto simp: flow_adapter_def split: if_splits)
  note st = continue_complete_step [OF assms(1,2), unfolded assms(3) option.case]
  show ?thesis
  proof (intro conjI impI)
    show "\<exists>st. handle_intent env s intent = Returns st \<and>
            st_calls st = [(a, Some (or_empty (js_get intent ''collectedParams'')))] \<and>
            (if a = SearchFlights \<and> \<not> http_ok (backend env)
             then activeFlow (st_session st) = Some (JStr ''QUERY_FLIGHT'') \<and>
                  currentStep (st_session st) = js_get intent ''nextStep''
             else activeFlow (st_session st) = Some JNull \<and>
                  currentStep (st_session st) = Some JNull)"
      using q by (simp add: st)
    assume i: "detectIntent (client env) (classifier env) (session_state s) = intent"
    show "if a = SearchFlights \<and> \<not> http_ok (backend env)
             then activeFlow (t_session (process_message env c s msg)) = Some (JStr ''QUERY_FLIGHT'') \<and>
                  currentStep (t_session (process_message env c s msg)) = js_get intent ''nextStep''
             else activeFlow (t_session (process_message env c s msg)) = Some JNull \<and>
                  currentStep (t_session (process_message env c s msg)) = Some JNull"
      using q by (simp add: process_message_calls(2,3) [OF i st])
  qed
qed

theorem completion_reset_unless_search_throws_witness:
  "js_get complete_buy_intent ''action'' = Some (JStr ''CONTINUE_FLOW'')
   \<and> truthy (js_get complete_buy_intent ''isFlowComplete'')
   \<and> flow_adapter (js_get complete_buy_intent ''flow'') = Some BookTicket
   \<and> detectIntent True (Parsed complete_buy_intent) (session_state sample_session) =
       complete_buy_intent
   \<and> activeFlow (t_session (process_message
        (sample_env (Parsed complete_buy_intent) (HttpFailed ''timeout of 10000ms exceeded''))
        (Some []) sample_session sample_message)) = Some JNull
   \<and> currentStep (t_session (process_message
        (sample_env (Parsed complete_buy_intent) (HttpFailed ''timeout of 10000ms exceeded''))
        (Some []) sample_session sample_message)) = Some JNull"
  using completion_reset_unless_search_throws
    [of complete_buy_intent BookTicket
        "sample_env (Parsed complete_buy_intent) (HttpFailed ''timeout of 10000ms exceeded'')"
        sample_session "Some []" sample_message]
  by (simp add: sample_defs detectIntent_def detectIntent_try_def
      processFlowStep_def session_state_def flow_adapter_def)

text \<open>
  The claim C3 as stated fails: a completed \<^verbatim>\<open>QUERY_FLIGHT\<close> flow whose search request
  times out calls the adapter and leaves the flow active.
\<close>

theorem completion_reset_counterexample:
  "js_get complete_query_intent ''action'' = Some (JStr ''CONTINUE_FLOW'')
   \<and> truthy (js_get complete_query_intent ''isFlowComplete'')
   \<and> detectIntent True (Parsed complete_query_intent) (session_state sample_session) =
       complete_query_intent
   \<and> t_calls (process_message
        (sample_env (Parsed complete_query_intent) (HttpFailed ''timeout of 150000ms exceeded''))
        (Some []) sample_session sample_message) = [(SearchFlights, Some query_params)]
   \<and> activeFlow (t_session (process_message
        (sample_env (Parsed complete_query_intent) (HttpFailed ''timeout of 150000ms exceeded''))
        (Some []) sample_session sample_message)) = Some (JStr ''QUERY_FLIGHT'')
   \<and> currentStep (t_session (process_message
        (sample_env (Parsed complete_query_intent) (HttpFailed ''timeout of 150000ms exceeded''))
        (Some []) sample_session sample_message)) = Some (JNum 5)"
  by (simp add: sample_defs process_message_def handle_intent_def continue_flow_def
      detectIntent_def detectIntent_try_def processFlowStep_def session_state_def Let_def
      searchFlights_def or_empty_def or_else_def)

text \<open>
  C4, as amended. A \<^verbatim>\<open>CONTINUE_FLOW\<close> intent, complete or not, sets the session's
  \<open>collectedParams\<close> to \<^verbatim>\<open>intent.collectedParams || {}\<close>, and a \<^verbatim>\<open>START_*\<close>
  intent sets it to \<^verbatim>\<open>intent.parameters || {}\<close>, whatever the session held before; the
  argument of every adapter call is \<^verbatim>\<open>intent.parameters\<close> or that new
  \<open>collectedParams\<close>, never a value left in the session by an earlier flow. Nothing clears
  \<open>collectedParams\<close> on completion: the reset assigns \<open>activeFlow\<close> and \<open>currentStep\<close>
  only.
\<close>

theorem collectedParams_overwritten_not_cleared:
  shows "(js_get intent ''action'' = Some (JStr ''CONTINUE_FLOW'') \<longrightarrow>
            (\<exists>st. handle_intent env s intent = Returns st \<and>
               collectedParams (st_session st) = or_empty (js_get intent ''collectedParams'')))
       \<and> (js_get intent ''action'' \<in>
             {Some (JStr ''START_QUERY_FLOW''), Some (JStr ''START_BUY_FLOW''),
              Some (JStr ''START_CHECKIN_FLOW'')} \<longrightarrow>
            (\<exists>st. handle_intent env s intent = Returns st \<and>
               collectedParams (st_session st) = or_empty (js_get intent ''parameters'')))
       \<and> (\<forall>st call. handle_intent env s intent = Returns st \<and> call \<in> set (st_calls st) \<longrightarrow>
            snd call = js_get intent ''parameters'' \<or>
            snd call = Some (or_empty (js_get intent ''collectedParams'')))"
proof (intro conjI impI allI)
  assume "js_get intent ''action'' = Some (JStr ''CONTINUE_FLOW'')"
  then show "\<exists>st. handle_intent env s intent = Returns st \<and>
               collectedParams (st_session st) = or_empty (js_get intent ''collectedParams'')"
    by (simp add: handle_intent_continue continue_flow_params(1))
next
  assume "js_get intent ''action'' \<in>
             {Some (JStr ''START_QUERY_FLOW''), Some (JStr ''START_BUY_FLOW''),
              Some (JStr ''START_CHECKIN_FLOW'')}"
  from handle_intent_start [OF this, of env s]
  show "\<exists>st. handle_intent env s intent = Returns st \<and>
               collectedParams (st_session st) = or_empty (js_get intent ''parameters'')"
    by (auto simp: start_flow_def)
next
  fix st call
  assume "handle_intent env s intent = Returns st \<and> call \<in> set (st_calls st)"
  then show "snd call = js_get intent ''parameters'' \<or>
            snd call = Some (or_empty (js_get intent ''collectedParams''))"
    using handle_intent_call_args by blast
qed

theorem collectedParams_overwritten_not_cleared_witness:
  "js_get complete_buy_intent ''action'' = Some (JStr ''CONTINUE_FLOW'')
   \<and> handle_intent (sample_env (Parsed complete_buy_intent) (HttpOk 200 JNull))
        (sample_session\<lparr>collectedParams := query_params\<rparr>) complete_buy_intent =
      Returns
        \<lparr>st_session =
           \<lparr>session_userId = ''u1'', activeFlow = Some JNull, currentStep = Some JNull,
            collectedParams = buy_params, conversationHistory = []\<rparr>,
         st_response = Some (JStr ''composed''),
         st_calls = [(BookTicket, Some buy_params)]\<rparr>"
  using collectedParams_overwritten_not_cleared
    [of complete_buy_intent "sample_env (Parsed complete_buy_intent) (HttpOk 200 JNull)"
        "sample_session\<lparr>collectedParams := query_params\<rparr>"]
  by (simp add: sample_defs handle_intent_def continue_flow_def Let_def bookTicket_def
      or_empty_def or_else_def reset_flow_def generateResponse_def)

text \<open>
  The claim C4 as stated fails: after a completed \<^verbatim>\<open>BUY_TICKET\<close> flow the flow state
  is reset and the session still holds the collected parameters.
\<close>

theorem collectedParams_cleared_counterexample:
  "js_get complete_buy_intent ''action'' = Some (JStr ''CONTINUE_FLOW'')
   \<and> truthy (js_get complete_buy_intent ''isFlowComplete'')
   \<and> detectIntent True (Parsed complete_buy_intent) (session_state sample_session) =
       complete_buy_intent
   \<and> activeFlow (t_session (process_message
        (sample_env (Parsed complete_buy_intent) (HttpOk 200 JNull))
        (Some []) sample_session sample_message)) = Some JNull
   \<and> collectedParams (t_session (process_message
        (sample_env (Parsed complete_buy_intent) (HttpOk 200 JNull))
        (Some []) sample_session sample_message)) = buy_params
   \<and> buy_params \<noteq> JObj []"
  by (simp add: sample_defs process_message_def handle_intent_def continue_flow_def
      detectIntent_def detectIntent_try_def processFlowStep_def session_state_def Let_def
      bookTicket_def or_empty_def or_else_def reset_flow_def)

section \<open>Failure of the classifier\<close>

text \<open>
  C8. When the classifier call fails (no client, a failed request, or a reply that
  \<^verbatim>\<open>JSON.parse\<close> rejects), \<^verbatim>\<open>detectIntent\<close> returns the \<^verbatim>\<open>CHAT\<close> intent that
  carries the apology, and the message handler ends normally: it emits one assistant
  message with the apology as content, pushes and saves it, calls no adapter and leaves the
  flow state as it was. Its outer \<^verbatim>\<open>catch\<close> is not reached.
\<close>

theorem classifier_failure_is_chat_apology:
  assumes "classifier_failed (client env) (classifier env)"
  shows "detectIntent (client env) (classifier env) cs = fallback_intent
       \<and> js_get fallback_intent ''action'' = Some (JStr ''CHAT'')
       \<and> js_get fallback_intent ''response'' = Some (JStr classifier_apology)
       \<and> process_message env c s msg =
           \<lparr>t_session = s\<lparr>conversationHistory := conversationHistory s @
              [msg, \<lparr>msg_id = ServerId (now env), content = Some (JStr classifier_apology),
                     timestamp = now env, sender = ''assistant'', userId = session_userId s\<rparr>]\<rparr>,
            t_container = saveMessage (saveMessage c (user_saved env) msg) (reply_saved env)
              \<lparr>msg_id = ServerId (now env), content = Some (JStr classifier_apology),
                timestamp = now env, sender = ''assistant'', userId = session_userId s\<rparr>,
            t_emitted = [\<lparr>msg_id = ServerId (now env), content = Some (JStr classifier_apology),
                timestamp = now env, sender = ''assistant'', userId = session_userId s\<rparr>],
            t_calls = [],
            t_answered = True\<rparr>"
proof -
  have d: "detectIntent (client env) (classifier env) cs = fallback_intent" for cs
    using assms
    by (auto simp: classifier_failed_def detectIntent_def detectIntent_try_def
        split: model_reply.splits)
  have a: "js_get fallback_intent ''action'' = Some (JStr ''CHAT'')"
    and r: "js_get fallback_intent ''response'' = Some (JStr classifier_apology)"
    by (simp_all add: fallback_intent_def)
  have t: "truthy (Some (JStr classifier_apology))"
    by (simp add: classifier_apology_def)
  have h: "handle_intent env s' fallback_intent =
      Returns \<lparr>st_session = s', st_response = Some (JStr classifier_apology), st_calls = []\<rparr>" for s'
    using t by (simp add: handle_intent_chat [OF a] chat_default_def r or_else_def)
  show ?thesis
    using process_message_returns [of env s msg _ c, OF h [of _, folded d [of "session_state s"]]]
    by (simp add: d a r)
qed

theorem classifier_failure_is_chat_apology_witness:
  "classifier_failed True Unparseable
   \<and> detectIntent True Unparseable (session_state sample_session) = fallback_intent
   \<and> map content (t_emitted (process_message (sample_env Unparseable (HttpOk 200 JNull))
        (Some []) sample_session sample_message)) = [Some (JStr classifier_apology)]
   \<and> t_answered (process_message (sample_env Unparseable (HttpOk 200 JNull))
        (Some []) sample_session sample_message)
   \<and> t_calls (process_message (sample_env Unparseable (HttpOk 200 JNull))
        (Some []) sample_session sample_message) = []"
  using classifier_failure_is_chat_apology
    [of "sample_env Unparseable (HttpOk 200 JNull)" "session_state sample_session"
        "Some []" sample_session sample_message]
  by (simp add: sample_env_def classifier_failed_def)

section \<open>The invariant of the flow state\<close>

text \<open>
  C1, as amended. In every session of every gateway state that is reached from the start
  by \<^verbatim>\<open>identify\<close>, \<^verbatim>\<open>message\<close> and \<^verbatim>\<open>disconnect\<close> events, \<open>activeFlow\<close> is
  null or undefined exactly when \<open>currentStep\<close> is null or undefined, provided that every
  \<^verbatim>\<open>CONTINUE_FLOW\<close> intent that reached the handler named no flow exactly when it named
  no next step, or was a completion that reached the reset. The handler copies
  \<^verbatim>\<open>intent.flow\<close> and \<^verbatim>\<open>intent.nextStep\<close> into the session without looking at
  them, and the proviso is exact: a run of the message handler on a session that satisfies
  the equivalence leaves a session that satisfies it if and only if the proviso holds for
  that run.
\<close>

theorem flow_invariant_reachable:
  assumes "\<forall>e \<in> set evs. event_consistent e"
    and "userSessions (run (start c) evs) sock = Some s"
  shows "flow_inv s
       \<and> (\<forall>env c' s' msg. flow_inv s' \<longrightarrow>
            flow_inv (t_session (process_message env c' s' msg)) = turn_consistent env)"
proof
  have "all_inv (start c)" by (simp add: all_inv_def start_def)
  from run_inv [OF this assms(1)] assms(2) show "flow_inv s"
    by (simp add: all_inv_def)
  show "\<forall>env c' s' msg. flow_inv s' \<longrightarrow>
            flow_inv (t_session (process_message env c' s' msg)) = turn_consistent env"
    by (simp add: process_message_inv_iff)
qed

theorem flow_invariant_reachable_witness:
  "list_all event_consistent booking_run
   \<and> map_option activeFlow (userSessions (run (start (Some [])) booking_run) ''sock1'')
       = Some (Some JNull)
   \<and> map_option currentStep (userSessions (run (start (Some [])) booking_run) ''sock1'')
       = Some (Some JNull)
   \<and> map_option flow_inv (userSessions (run (start (Some [])) booking_run) ''sock1'')
       = Some True"
proof -
  have c: "list_all event_consistent booking_run"
    by (simp add: booking_run_def sample_defs turn_consistent_def reaches_reset_def
        nullish_def)
  obtain s where s: "userSessions (run (start (Some [])) booking_run) ''sock1'' = Some s"
    and a: "activeFlow s = Some JNull" and b: "currentStep s = Some JNull"
    by (simp add: booking_run_def sample_defs run_defs)
  from c have "\<forall>e \<in> set booking_run. event_consistent e"
    by (simp add: list_all_iff)
  from flow_invariant_reachable [OF this s] have "flow_inv s" by simp
  with c s a b show ?thesis by simp
qed

text \<open>
  The claim C1 as stated fails: after a \<^verbatim>\<open>CONTINUE_FLOW\<close> intent with the flow
  \<^verbatim>\<open>BUY_TICKET\<close> and a null \<^verbatim>\<open>nextStep\<close> the session has an active flow and a
  null step; when the intent has no \<^verbatim>\<open>nextStep\<close> at all, the step is undefined.
\<close>

theorem flow_invariant_counterexample:
  "map_option activeFlow (userSessions (run (start (Some [])) stepless_run) ''sock1'')
     = Some (Some (JStr ''BUY_TICKET''))
   \<and> map_option currentStep (userSessions (run (start (Some [])) stepless_run) ''sock1'')
     = Some (Some JNull)
   \<and> map_option flow_inv (userSessions (run (start (Some [])) stepless_run) ''sock1'')
     = Some False
   \<and> map_option activeFlow (userSessions (run (start (Some [])) missing_step_run) ''sock1'')
     = Some (Some (JStr ''BUY_TICKET''))
   \<and> map_option currentStep (userSessions (run (start (Some [])) missing_step_run) ''sock1'')
     = Some None
   \<and> map_option flow_inv (userSessions (run (start (Some [])) missing_step_run) ''sock1'')
     = Some False"
  by (simp add: stepless_run_def missing_step_run_def sample_defs run_defs flow_inv_def
      nullish_def)

section \<open>Opening a session again\<close>




text \<open>
  What the provisos of the amended claim keep out. When the welcome message of the closed
  session was not stored, the session opened next does not have it. When the user's
  message has a timestamp before the welcome message's, the session opened next has the
  two in the other order. When the user's message was sent under another user's id, the
  session opened next does not have it.
\<close>

lemma reopen_provisos:
  "map_option conversationHistory
     (userSessions (run (start (Some [])) unsaved_run) ''sock2'') =
     Some [welcomeMessage 200 ''u1'']
   \<and> map_option conversationHistory
     (userSessions (run (start (Some [])) (butlast (butlast early_message_run))) ''sock1'') =
     Some [welcomeMessage 950 ''u1'', sample_message, fallback_reply]
   \<and> map_option conversationHistory
     (userSessions (run (start (Some [])) early_message_run) ''sock2'') =
     Some [sample_message, welcomeMessage 950 ''u1'', fallback_reply,
           welcomeMessage 2000 ''u1'']
   \<and> map_option conversationHistory
     (userSessions (run (start (Some [])) (butlast (butlast foreign_message_run))) ''sock1'') =
     Some [welcomeMessage 100 ''u1'', sample_message\<lparr>userId := ''u2''\<rparr>, fallback_reply]
   \<and> map_option conversationHistory
     (userSessions (run (start (Some [])) foreign_message_run) ''sock2'') =
     Some [welcomeMessage 100 ''u1'', fallback_reply, welcomeMessage 2000 ''u1'']"
  by code_simp

end
